theory Spec2Isabelle
  imports
    Main
    "HOL-Library.Char_ord"
    "HOL-Library.List_Lexorder"
    "HOL-Library.Multiset"
begin

section \<open>Data model of \<open>photos-library/model/album.ts\<close>\<close>

text \<open>
  A JavaScript reference that may hold \<open>undefined\<close>, \<open>null\<close> or a value. The source
  tests such references for truthiness only (\<open>album && ...\<close>, \<open>this.assets ? ... : {}\<close>,
  \<open>!localEntity\<close>); an object is always truthy.
\<close>

datatype 'a nullable = Undefined | Null | Val 'a

text \<open>\<open>enum AlbumType { FOLDER = 3, ALBUM = 0, ARCHIVED = 99 }\<close>\<close>

datatype AlbumType = FOLDER | ALBUM | ARCHIVED

text \<open>
  \<open>type AlbumAssets = { [key: string]: string }\<close>: the properties of the object in the
  order in which they were inserted. A JavaScript object holds a key once, which is the
  invariant \<open>wf_assets\<close>. Strings are lists of code units.
\<close>

type_synonym AlbumAssets = "(string \<times> string) list"

definition wf_assets :: "AlbumAssets nullable \<Rightarrow> bool" where
  "wf_assets m = (case m of Val kvs \<Rightarrow> distinct (map fst kvs) | _ \<Rightarrow> True)"

text \<open>
  The fields of \<open>class Album\<close>, in the order of their declaration. The source comments
  that \<open>assets\<close> "might be undefined", so this field is nullable.
\<close>

record album =
  uuid :: string
  albumType :: AlbumType
  albumName :: string
  assets :: "AlbumAssets nullable"
  parentAlbumUUID :: string

text \<open>
  The constructor: \<open>this.uuid = uuid; this.albumType = albumType; this.albumName = albumName;
  this.parentAlbumUUID = parentAlbumUUID; this.assets = {};\<close>
\<close>

definition Album_new :: "string \<Rightarrow> AlbumType \<Rightarrow> string \<Rightarrow> string \<Rightarrow> album" where
  "Album_new uuid' albumType' albumName' parentAlbumUUID' =
     \<lparr>uuid = uuid', albumType = albumType', albumName = albumName', assets = Val [],
      parentAlbumUUID = parentAlbumUUID'\<rparr>"

text \<open>\<open>getRootAlbum(): return new Album(``, AlbumType.FOLDER, `iCloud Photos Library`, ``);\<close>\<close>

definition getRootAlbum :: album where
  "getRootAlbum = Album_new '''' FOLDER ''iCloud Photos Library'' ''''"

section \<open>\<open>getSanitizedFilename\<close>\<close>

text \<open>
  \<open>String.prototype.replaceAll\<close> for a pattern and a replacement of one code unit each,
  as the source calls it: the string is scanned from left to right and a new string is
  built.
\<close>

primrec replaceAll :: "string \<Rightarrow> char \<Rightarrow> char \<Rightarrow> string" where
  "replaceAll [] pat rep = []"
| "replaceAll (c # cs) pat rep = (if c = pat then rep else c) # replaceAll cs pat rep"

text \<open>\<open>return this.albumName.replaceAll(`/`, `_`);\<close>\<close>

definition getSanitizedFilename :: "album \<Rightarrow> string" where
  "getSanitizedFilename this = replaceAll (albumName this) CHR ''/'' CHR ''_''"

text \<open>
  The call seen from the receiver: the result together with the receiver after the call.
  The body of the method assigns to no field.
\<close>

definition getSanitizedFilename_call :: "album \<Rightarrow> string \<times> album" where
  "getSanitizedFilename_call this = (getSanitizedFilename this, this)"

text \<open>\<open>getUUID(): return this.uuid;\<close>\<close>

definition getUUID :: "album \<Rightarrow> string" where
  "getUUID this = uuid this"

section \<open>\<open>apply\<close>\<close>

text \<open>
  \<open>if (!localEntity) return this; this.albumType = localEntity.albumType; return this;\<close>
  The result is the receiver after the assignment.
\<close>

definition apply_album :: "album \<Rightarrow> album nullable \<Rightarrow> album" where
  "apply_album this localEntity =
     (case localEntity of
        Val l \<Rightarrow> this\<lparr>albumType := albumType l\<rparr>
      | _ \<Rightarrow> this)"

section \<open>\<open>assetsEqual\<close> and \<open>equal\<close>\<close>

text \<open>
  \<open>JSON.stringify\<close> on an array of strings (ECMAScript \<open>SerializeJSONArray\<close> without
  indentation, \<open>QuoteJSONString\<close> on each element). A code unit below \<open>0x20\<close> that has no
  short escape is written as \<open>\<close>\<open>u00XX\<close> with lower-case hexadecimal digits.
\<close>

definition hexDigit :: "nat \<Rightarrow> char" where
  "hexDigit n = (if n < 10 then char_of (48 + n) else char_of (87 + n))"

definition UnicodeEscape :: "char \<Rightarrow> string" where
  "UnicodeEscape c =
     [CHR 0x5C, CHR ''u'', CHR ''0'', CHR ''0'',
      hexDigit (of_char c div 16), hexDigit (of_char c mod 16)]"

definition QuoteJSONChar :: "char \<Rightarrow> string" where
  "QuoteJSONChar c =
     (if c = CHR 0x08 then [CHR 0x5C, CHR ''b'']
      else if c = CHR 0x09 then [CHR 0x5C, CHR ''t'']
      else if c = CHR 0x0A then [CHR 0x5C, CHR ''n'']
      else if c = CHR 0x0C then [CHR 0x5C, CHR ''f'']
      else if c = CHR 0x0D then [CHR 0x5C, CHR ''r'']
      else if c = CHR 0x22 then [CHR 0x5C, CHR 0x22]
      else if c = CHR 0x5C then [CHR 0x5C, CHR 0x5C]
      else if of_char c < (0x20 :: nat) then UnicodeEscape c
      else [c])"

definition QuoteJSONString :: "string \<Rightarrow> string" where
  "QuoteJSONString s = CHR 0x22 # concat (map QuoteJSONChar s) @ [CHR 0x22]"

fun SerializeJSONElements :: "string list \<Rightarrow> string" where
  "SerializeJSONElements [] = []"
| "SerializeJSONElements [s] = QuoteJSONString s"
| "SerializeJSONElements (s # t) = QuoteJSONString s @ CHR '','' # SerializeJSONElements t"

definition JSON_stringify :: "string list \<Rightarrow> string" where
  "JSON_stringify xs = CHR ''['' # SerializeJSONElements xs @ [CHR '']'']"

text \<open>
  \<open>Object.keys\<close>: the keys in the order of the properties (JavaScript lists keys that
  are array indices first; the keys are sorted next, so the order does not reach the
  result). \<open>Array.prototype.sort\<close> without a comparator orders strings by their code
  units, which is \<open>sort\<close> in the lexicographic order on lists.
\<close>

definition Object_keys :: "AlbumAssets \<Rightarrow> string list" where
  "Object_keys obj = map fst obj"

text \<open>\<open>assets ? assets : {}\<close>\<close>

definition orEmpty :: "AlbumAssets nullable \<Rightarrow> AlbumAssets" where
  "orEmpty m = (case m of Val kvs \<Rightarrow> kvs | _ \<Rightarrow> [])"

definition assetsEqual :: "album \<Rightarrow> AlbumAssets nullable \<Rightarrow> bool" where
  "assetsEqual this assets' =
     (let thisAssets = orEmpty (assets this);
          otherAssets = orEmpty assets'
      in JSON_stringify (sort (Object_keys thisAssets))
           = JSON_stringify (sort (Object_keys otherAssets)))"

text \<open>
  \<open>return album && this.uuid === album.uuid && ... ;\<close> A chain of \<open>&&\<close> yields its first
  falsy operand: the argument itself when it is \<open>null\<close> or \<open>undefined\<close>, and a boolean
  otherwise. The argument is dereferenced in the last branch only.
\<close>

definition equal_album :: "album \<Rightarrow> album nullable \<Rightarrow> bool nullable" where
  "equal_album this album =
     (case album of
        Undefined \<Rightarrow> Undefined
      | Null \<Rightarrow> Null
      | Val b \<Rightarrow> Val (uuid this = uuid b
          \<and> getSanitizedFilename this = getSanitizedFilename b
          \<and> parentAlbumUUID this = parentAlbumUUID b
          \<and> (albumType this = ARCHIVED \<or> albumType b = ARCHIVED
               \<or> (assetsEqual this (assets b) \<and> albumType this = albumType b))))"

text \<open>JavaScript's \<open>ToBoolean\<close> on the value that \<open>equal\<close> returns.\<close>

definition ToBoolean :: "bool nullable \<Rightarrow> bool" where
  "ToBoolean v = (case v of Val b \<Rightarrow> b | _ \<Rightarrow> False)"

section \<open>\<open>hasAncestor\<close> and \<open>distanceToRoot\<close>\<close>

text \<open>\<open>LIBRARY_ERR.NO_DISTANCE_TO_ROOT\<close>, the error that \<open>distanceToRoot\<close> throws.\<close>

datatype error = NO_DISTANCE_TO_ROOT

text \<open>
  \<open>fullQueue.find(album => album.getUUID() === this.parentAlbumUUID)\<close>: the first album
  of the queue with that UUID, if there is one.
\<close>

definition findParent :: "album \<Rightarrow> album list \<Rightarrow> album option" where
  "findParent this fullQueue = find (\<lambda>album. getUUID album = parentAlbumUUID this) fullQueue"

text \<open>
  Both functions recurse along the parent links with nothing that bounds the recursion.
  \<open>None\<close> stands for a call that does not return (the recursion never ends; a JavaScript
  engine gives up when its call stack is exhausted).
\<close>

partial_function (option) hasAncestor :: "album \<Rightarrow> album \<Rightarrow> album list \<Rightarrow> bool option" where
  "hasAncestor this potentialAncestor fullQueue =
     (if parentAlbumUUID this = '''' then Some False
      else if getUUID potentialAncestor = parentAlbumUUID this then Some True
      else case findParent this fullQueue of
             Some parent \<Rightarrow> hasAncestor parent potentialAncestor fullQueue
           | None \<Rightarrow> Some False)"

text \<open>
  The result of a call that returns is the thrown error or the number. An error thrown by
  the recursive call passes through \<open>... + 1\<close>.
\<close>

definition plusOne :: "error + nat \<Rightarrow> error + nat" where
  "plusOne r = (case r of Inl e \<Rightarrow> Inl e | Inr n \<Rightarrow> Inr (n + 1))"

partial_function (option) distanceToRoot :: "album \<Rightarrow> album list \<Rightarrow> (error + nat) option" where
  "distanceToRoot album fullQueue =
     (if parentAlbumUUID album = '''' then Some (Inr 0)
      else case findParent album fullQueue of
             Some parent \<Rightarrow>
               Option.bind (distanceToRoot parent fullQueue) (\<lambda>r. Some (plusOne r))
           | None \<Rightarrow> Some (Inl NO_DISTANCE_TO_ROOT))"

declare hasAncestor.simps [code]
declare distanceToRoot.simps [code]

section \<open>Parent chains\<close>

text \<open>
  \<open>brokenAlong ns a p q\<close>: following the parent links from \<open>a\<close> in \<open>q\<close> visits the albums
  \<open>ns\<close> in this order, no link on the way carries the UUID of \<open>p\<close>, and the last link is a
  non-empty UUID that no album of \<open>q\<close> has.
\<close>

fun brokenAlong :: "album list \<Rightarrow> album \<Rightarrow> album \<Rightarrow> album list \<Rightarrow> bool" where
  "brokenAlong [] a p q =
     (parentAlbumUUID a \<noteq> '''' \<and> getUUID p \<noteq> parentAlbumUUID a \<and> findParent a q = None)"
| "brokenAlong (n # ns) a p q =
     (parentAlbumUUID a \<noteq> '''' \<and> getUUID p \<noteq> parentAlbumUUID a \<and> findParent a q = Some n
      \<and> brokenAlong ns n p q)"

text \<open>
  \<open>depthOrdered d a q\<close>: the parent links of \<open>a\<close> and of the albums of \<open>q\<close> are acyclic, in
  that the depth \<open>d\<close> of the parent found for an album is below the depth of the album.
\<close>

definition depthOrdered :: "(album \<Rightarrow> nat) \<Rightarrow> album \<Rightarrow> album list \<Rightarrow> bool" where
  "depthOrdered d a q =
     list_all (\<lambda>x. parentAlbumUUID x = '''' \<or>
                  (case findParent x q of None \<Rightarrow> True | Some parent \<Rightarrow> d parent < d x))
       (a # q)"

section \<open>The page size of the queries\<close>

text \<open>
  \<open>export const MAX_RECORDS_LIMIT = 198;\<close> with its comment "Should be 200, but in order
  to divide by 3 (for albums) and 2 (for all pictures) 198 is more convenient".
\<close>

definition MAX_RECORDS_LIMIT :: nat where
  "MAX_RECORDS_LIMIT = 198"

text \<open>
  Modelled from the spec: the number of records that one call of a paginated query
  requests (the query executor that uses the constant is missing). By the pagination
  contract a call "never exceeds one page-size worth of requested records"; a call
  requests one page.
\<close>

definition resultsLimit :: nat where
  "resultsLimit = MAX_RECORDS_LIMIT"

section \<open>The session\<close>

text \<open>
  The class \<open>iCloud\<close> with \<open>getTokens\<close> and \<open>setupAccount\<close> is not among the sources; only
  its tests are. Everything in this section is modelled from the spec.
\<close>

text \<open>
  Modelled from the spec: the states of the session, "NEEDS_AUTH, AUTHENTICATING,
  MFA_REQUIRED, AUTHENTICATED, TRUSTED, ACCOUNT_READY; a parallel failure exit from any
  state to FAILED" (the class \<open>iCloud\<close> is missing).
\<close>

datatype session_state =
  NEEDS_AUTH | AUTHENTICATING | MFA_REQUIRED | AUTHENTICATED | TRUSTED | ACCOUNT_READY | FAILED

text \<open>
  Modelled from the spec: the fatal errors of its taxonomy that concern the session (the
  error codes of the application are missing).
\<close>

datatype auth_error =
  AuthSecretsMissing | UnexpectedHttpResponse | UnknownUsername | BadCredentials | NoResponse
  | MfaRequiredButDisallowed | MfaSubmitFailed | TokenAcquisitionFailed | AccountSetupFailed
  | PhotosServiceNotReady | MfaServerStartFailed

text \<open>
  Modelled from the spec: the readiness signal, "a single-resolution future" (the promise
  \<open>ready\<close> of the class \<open>iCloud\<close> is missing).
\<close>

datatype readiness = Pending | Resolved | Rejected auth_error

text \<open>
  Modelled from the spec: a cookie of the cookie set, with the time at which it expires
  (seconds since the epoch) if it has one (the cookie handling of the class \<open>iCloudAuth\<close> is
  missing).
\<close>

record cookie =
  cookieName :: string
  cookieContent :: string
  cookieExpires :: "int option"

text \<open>
  Modelled from the spec: the photo-library component, constructed for the URL of the
  photo service (the class \<open>iCloudPhotos\<close> is missing).
\<close>

datatype photos_component = PhotosComponent string

text \<open>
  Modelled from the spec: the state of the session (the fields of the classes \<open>iCloud\<close> and
  \<open>iCloudAuth\<close> are missing). \<open>trustTokenFile\<close> is the content of the persisted trust-token
  file, "plain text content = opaque token string".
\<close>

record session =
  state :: session_state
  ready :: readiness
  trustTokenFile :: string
  trustToken :: string
  sessionToken :: string
  cookies :: "cookie list"
  photosServiceUrl :: "string option"
  photos :: "photos_component option"

text \<open>
  Modelled from the spec: the outcome of a request, which is no response at all (a network
  error) or a status with what the response carries (the HTTP client is missing).
\<close>

datatype 'a response = NetworkError | Response nat 'a

text \<open>
  Modelled from the spec: rejecting the readiness signal (the class \<open>iCloud\<close> is missing).
  The signal is resolved or rejected once; a signal that is settled stays as it is.
\<close>

definition reject :: "auth_error \<Rightarrow> readiness \<Rightarrow> readiness" where
  "reject e r = (case r of Pending \<Rightarrow> Rejected e | _ \<Rightarrow> r)"

text \<open>
  Modelled from the spec: the failure exit of the session (the class \<open>iCloud\<close> is missing):
  the state becomes \<open>FAILED\<close> and the readiness signal is rejected with the error.
\<close>

definition failWith :: "auth_error \<Rightarrow> session \<Rightarrow> session" where
  "failWith e s = s\<lparr>state := FAILED, ready := reject e (ready s)\<rparr>"

text \<open>
  Modelled from the spec: \<open>getTokens\<close> of the missing class \<open>iCloud\<close> "fetches a trust token
  via the session token; on success persists the trust token to durable storage
  (overwriting only after a successful response) and transitions to TRUSTED. On failure
  (bad status or network error) fails with TokenAcquisitionFailed; the previously
  persisted token file is left untouched." The response carries the trust-token header,
  if it has one; the status of success is 200, as in the test "Acquire trust token".
\<close>

definition getTokens :: "string option response \<Rightarrow> session \<Rightarrow> session" where
  "getTokens resp s =
     (case resp of
        NetworkError \<Rightarrow> failWith TokenAcquisitionFailed s
      | Response status header \<Rightarrow>
          (case header of
             Some token \<Rightarrow>
               if status = 200
               then s\<lparr>state := TRUSTED, trustTokenFile := token, trustToken := token\<rparr>
               else failWith TokenAcquisitionFailed s
           | None \<Rightarrow> failWith TokenAcquisitionFailed s))"

text \<open>
  Modelled from the spec: what the response of the account setup carries, "a cookie set
  and a service endpoint map", of which the URL of the photo service is used (the response
  type is missing).
\<close>

record setup_response =
  setCookie :: "cookie list"
  ckdatabasewsUrl :: "string option"

text \<open>
  Modelled from the spec: a cookie "whose expiry has already elapsed" at the time \<open>now\<close>
  (the cookie handling is missing). A cookie without expiry does not expire.
\<close>

definition expired :: "int \<Rightarrow> cookie \<Rightarrow> bool" where
  "expired now c = (case cookieExpires c of Some t \<Rightarrow> t < now | None \<Rightarrow> False)"

text \<open>
  Modelled from the spec: \<open>setupAccount\<close> of the missing class \<open>iCloud\<close> "requires the
  response to carry at least one non-expired cookie [...]. Zero or all-expired cookies, a
  non-200 status, a network error, or a response missing the photo-service endpoint URL,
  all fail with AccountSetupFailed. Success stores cookies + endpoint map and transitions
  to ACCOUNT_READY." After a successful setup the photo-library component exists (test
  "Acquire iCloud Cookies \<open>&\<close> Photos Account Data").
\<close>

definition setupAccount :: "int \<Rightarrow> setup_response response \<Rightarrow> session \<Rightarrow> session" where
  "setupAccount now resp s =
     (case resp of
        NetworkError \<Rightarrow> failWith AccountSetupFailed s
      | Response status r \<Rightarrow>
          (case ckdatabasewsUrl r of
             Some url \<Rightarrow>
               if status = 200 \<and> filter (\<lambda>c. \<not> expired now c) (setCookie r) \<noteq> []
               then s\<lparr>state := ACCOUNT_READY, cookies := setCookie r,
                      photosServiceUrl := Some url, photos := Some (PhotosComponent url)\<rparr>
               else failWith AccountSetupFailed s
           | None \<Rightarrow> failWith AccountSetupFailed s))"

text \<open>
  Example data after the tests: a session that is authenticated, with a trust token on
  file, and a cookie set that expired in 1970.
\<close>

definition testSession :: session where
  "testSession =
     \<lparr>state = AUTHENTICATED, ready = Pending, trustTokenFile = ''trust-token'',
      trustToken = ''trust-token'', sessionToken = ''session-id'', cookies = [],
      photosServiceUrl = None, photos = None\<rparr>"

definition expiredCookies :: "cookie list" where
  "expiredCookies =
     [\<lparr>cookieName = ''X-APPLE-WEBAUTH-USER'', cookieContent = ''v'', cookieExpires = Some 10\<rparr>,
      \<lparr>cookieName = ''X-APPLE-WEBAUTH-TOKEN'', cookieContent = ''w'', cookieExpires = Some 10\<rparr>]"

section \<open>Example albums\<close>

definition holidays :: album where
  "holidays = Album_new ''f1'' FOLDER ''Holidays'' ''''"

definition beach :: album where
  "beach = Album_new ''a1'' ALBUM ''Beach'' ''f1''"

definition orphan :: album where
  "orphan = Album_new ''a2'' ALBUM ''Orphan'' ''f9''"

definition tripXY :: album where
  "tripXY = (Album_new ''a3'' ALBUM ''Trip/2020'' ''f1'')
     \<lparr>assets := Val [(''x.jpeg'', ''IMG_1.jpeg''), (''y.jpeg'', ''IMG_2.jpeg'')]\<rparr>"

definition tripYX :: album where
  "tripYX = (Album_new ''a3'' ALBUM ''Trip_2020'' ''f1'')
     \<lparr>assets := Val [(''y.jpeg'', ''IMG_2.jpeg''), (''x.jpeg'', ''IMG_1.jpeg'')]\<rparr>"

definition loopA :: album where
  "loopA = Album_new ''a'' FOLDER ''A'' ''b''"

definition loopB :: album where
  "loopB = Album_new ''b'' FOLDER ''B'' ''a''"

section \<open>Properties\<close>

lemma replaceAll_map:
  "replaceAll s pat rep = map (\<lambda>c. if c = pat then rep else c) s"
  by (induction s) simp_all

lemma replaceAll_free: "pat \<noteq> rep \<Longrightarrow> pat \<notin> set (replaceAll s pat rep)"
  by (induction s) simp_all

text \<open>
  C7. \<open>getSanitizedFilename\<close> returns the album name with every \<open>/\<close> replaced by \<open>_\<close>:
  the result is the name mapped code unit by code unit, so all other code units and the
  order are kept; the result contains no \<open>/\<close>; and the receiver, in particular its
  \<open>albumName\<close>, is the same after the call.
\<close>

theorem getSanitizedFilename_replaces_separator:
  "getSanitizedFilename a = map (\<lambda>c. if c = CHR ''/'' then CHR ''_'' else c) (albumName a)
   \<and> CHR ''/'' \<notin> set (getSanitizedFilename a)
   \<and> fst (getSanitizedFilename_call a) = getSanitizedFilename a
   \<and> albumName (snd (getSanitizedFilename_call a)) = albumName a
   \<and> snd (getSanitizedFilename_call a) = a"
proof -
  have "getSanitizedFilename a = map (\<lambda>c. if c = CHR ''/'' then CHR ''_'' else c) (albumName a)"
    unfolding getSanitizedFilename_def by (rule replaceAll_map)
  moreover have "CHR ''/'' \<notin> set (getSanitizedFilename a)"
    unfolding getSanitizedFilename_def by (rule replaceAll_free) simp
  moreover have "getSanitizedFilename_call a = (getSanitizedFilename a, a)"
    by (simp add: getSanitizedFilename_call_def)
  ultimately show ?thesis by simp
qed

text \<open>
  C9. \<open>r.apply(l)\<close> sets \<open>r.albumType\<close> to \<open>l.albumType\<close> and leaves \<open>uuid\<close>, \<open>albumName\<close>,
  \<open>parentAlbumUUID\<close> and \<open>assets\<close> of \<open>r\<close> as they were; with \<open>l\<close> null or undefined the
  result is \<open>r\<close> with every field unchanged.
\<close>

theorem apply_album_frame:
  "albumType (apply_album r (Val l)) = albumType l
   \<and> uuid (apply_album r (Val l)) = uuid r
   \<and> albumName (apply_album r (Val l)) = albumName r
   \<and> parentAlbumUUID (apply_album r (Val l)) = parentAlbumUUID r
   \<and> assets (apply_album r (Val l)) = assets r
   \<and> apply_album r (Val l) = r\<lparr>albumType := albumType l\<rparr>
   \<and> apply_album r Null = r
   \<and> apply_album r Undefined = r"
  by (simp add: apply_album_def)

subsection \<open>\<open>JSON.stringify\<close> is injective on arrays of strings\<close>

lemma hexDigit_inj: "m < 16 \<Longrightarrow> n < 16 \<Longrightarrow> hexDigit m = hexDigit n \<Longrightarrow> m = n"
  unfolding hexDigit_def
  by (auto simp: char_of_eq_iff take_bit_nat_eq_self split: if_splits)

lemma of_char_div_mod_eq:
  assumes "(of_char c :: nat) div 16 = of_char d div 16"
    and "(of_char c :: nat) mod 16 = of_char d mod 16"
  shows "c = d"
proof -
  have "(of_char c :: nat) = of_char d"
    using assms by (metis div_mult_mod_eq)
  then show ?thesis by simp
qed

lemma UnicodeEscape_inj:
  assumes "UnicodeEscape c = UnicodeEscape d"
  shows "c = d"
proof -
  have lt: "(of_char c :: nat) < 256" "(of_char d :: nat) < 256" by simp_all
  have "hexDigit (of_char c div 16) = hexDigit (of_char d div 16)"
       "hexDigit (of_char c mod 16) = hexDigit (of_char d mod 16)"
    using assms by (simp_all add: UnicodeEscape_def)
  moreover have "(of_char c :: nat) div 16 < 16" "(of_char d :: nat) div 16 < 16"
    using lt by presburger+
  ultimately have "(of_char c :: nat) div 16 = of_char d div 16"
    and "(of_char c :: nat) mod 16 = of_char d mod 16"
    by (auto intro: hexDigit_inj)
  then show ?thesis by (rule of_char_div_mod_eq)
qed

lemma UnicodeEscape_prefix:
  assumes "UnicodeEscape c @ x = UnicodeEscape d @ y"
  shows "c = d \<and> x = y"
proof -
  have "length (UnicodeEscape c) = length (UnicodeEscape d)"
    by (simp add: UnicodeEscape_def)
  with assms have "UnicodeEscape c = UnicodeEscape d \<and> x = y" by simp
  then show ?thesis by (blast dest: UnicodeEscape_inj)
qed

lemma QuoteJSONChar_prefix:
  "QuoteJSONChar c @ x = QuoteJSONChar d @ y \<Longrightarrow> c = d \<and> x = y"
  using UnicodeEscape_prefix[of c x d y]
  apply (simp add: QuoteJSONChar_def split: if_splits)
  apply (auto simp: UnicodeEscape_def)
  done

lemma QuoteJSONChar_head:
  "\<exists>h r. QuoteJSONChar c = h # r \<and> h \<noteq> CHR 0x22"
  by (simp add: QuoteJSONChar_def UnicodeEscape_def)

lemma QuoteJSONChars_prefix:
  "concat (map QuoteJSONChar s) @ CHR 0x22 # x = concat (map QuoteJSONChar t) @ CHR 0x22 # y
   \<Longrightarrow> s = t \<and> x = y"
proof (induction s arbitrary: t)
  case Nil
  show ?case
  proof (cases t)
    case Nil
    with Nil.prems show ?thesis by simp
  next
    case (Cons d t')
    obtain h r where "QuoteJSONChar d = h # r" "h \<noteq> CHR 0x22"
      using QuoteJSONChar_head by blast
    with Nil.prems Cons show ?thesis by simp
  qed
next
  case (Cons c s')
  show ?case
  proof (cases t)
    case Nil
    obtain h r where "QuoteJSONChar c = h # r" "h \<noteq> CHR 0x22"
      using QuoteJSONChar_head by blast
    with Cons.prems Nil show ?thesis by simp
  next
    case (Cons d t')
    from Cons.prems Cons
    have "QuoteJSONChar c @ (concat (map QuoteJSONChar s') @ CHR 0x22 # x)
        = QuoteJSONChar d @ (concat (map QuoteJSONChar t') @ CHR 0x22 # y)"
      by simp
    then have "c = d \<and>
      concat (map QuoteJSONChar s') @ CHR 0x22 # x = concat (map QuoteJSONChar t') @ CHR 0x22 # y"
      by (rule QuoteJSONChar_prefix)
    then have "c = d" and
      "concat (map QuoteJSONChar s') @ CHR 0x22 # x = concat (map QuoteJSONChar t') @ CHR 0x22 # y"
      by blast+
    with Cons.IH Cons show ?thesis by simp
  qed
qed

lemma QuoteJSONString_prefix:
  "QuoteJSONString s @ x = QuoteJSONString t @ y \<Longrightarrow> s = t \<and> x = y"
  unfolding QuoteJSONString_def by (rule QuoteJSONChars_prefix) simp

lemma QuoteJSONString_head: "\<exists>r. QuoteJSONString s = CHR 0x22 # r"
  by (simp add: QuoteJSONString_def)

lemma SerializeJSONElements_Cons:
  "SerializeJSONElements (s # t) =
     QuoteJSONString s @ (if t = [] then [] else CHR '','' # SerializeJSONElements t)"
  by (cases t) simp_all

lemma SerializeJSONElements_prefix:
  "SerializeJSONElements xs @ CHR '']'' # x = SerializeJSONElements ys @ CHR '']'' # y
   \<Longrightarrow> xs = ys"
proof (induction xs arbitrary: ys)
  case Nil
  show ?case
  proof (cases ys)
    case Nil
    then show ?thesis by simp
  next
    case (Cons t ys')
    obtain r where "QuoteJSONString t = CHR 0x22 # r"
      using QuoteJSONString_head by blast
    with Nil.prems Cons show ?thesis by (simp add: SerializeJSONElements_Cons)
  qed
next
  case (Cons s xs')
  show ?case
  proof (cases ys)
    case Nil
    obtain r where "QuoteJSONString s = CHR 0x22 # r"
      using QuoteJSONString_head by blast
    with Cons.prems Nil show ?thesis by (simp add: SerializeJSONElements_Cons)
  next
    case (Cons t ys')
    let ?restx = "(if xs' = [] then [] else CHR '','' # SerializeJSONElements xs') @ CHR '']'' # x"
    let ?resty = "(if ys' = [] then [] else CHR '','' # SerializeJSONElements ys') @ CHR '']'' # y"
    from Cons.prems Cons have "QuoteJSONString s @ ?restx = QuoteJSONString t @ ?resty"
      by (simp add: SerializeJSONElements_Cons)
    then have "s = t \<and> ?restx = ?resty"
      by (rule QuoteJSONString_prefix)
    then have st: "s = t" and rest: "?restx = ?resty"
      by blast+
    have "xs' = ys'"
    proof (cases "xs' = []")
      case True
      with rest show ?thesis by (cases "ys' = []") simp_all
    next
      case False
      with rest have "ys' \<noteq> []" by (cases "ys' = []") simp_all
      with rest False show ?thesis using Cons.IH[of ys'] by simp
    qed
    with st Cons show ?thesis by simp
  qed
qed

lemma JSON_stringify_inj: "JSON_stringify xs = JSON_stringify ys \<longleftrightarrow> xs = ys"
proof
  assume "JSON_stringify xs = JSON_stringify ys"
  then have "SerializeJSONElements xs @ CHR '']'' # [] = SerializeJSONElements ys @ CHR '']'' # []"
    by (simp add: JSON_stringify_def)
  then show "xs = ys" by (rule SerializeJSONElements_prefix)
qed simp

subsection \<open>\<open>assetsEqual\<close> compares the key sets\<close>

lemma sort_eq_iff_mset: "sort xs = sort ys \<longleftrightarrow> mset xs = mset (ys :: 'a :: linorder list)"
  by (metis mset_sort properties_for_sort sorted_sort)

lemma assetsEqual_mset:
  "assetsEqual this m \<longleftrightarrow>
     mset (Object_keys (orEmpty (assets this))) = mset (Object_keys (orEmpty m))"
  by (simp add: assetsEqual_def JSON_stringify_inj sort_eq_iff_mset)

lemma wf_assets_distinct: "wf_assets m \<Longrightarrow> distinct (Object_keys (orEmpty m))"
  by (cases m) (simp_all add: wf_assets_def orEmpty_def Object_keys_def)

lemma assetsEqual_set:
  assumes "wf_assets (assets this)" and "wf_assets m"
  shows "assetsEqual this m \<longleftrightarrow>
     set (Object_keys (orEmpty (assets this))) = set (Object_keys (orEmpty m))"
  using assms by (simp add: assetsEqual_mset set_eq_iff_mset_eq_distinct wf_assets_distinct)

lemma assetsEqual_permuted:
  assumes "mset ka = mset (orEmpty (assets a))" and "mset kb = mset (orEmpty m)"
  shows "assetsEqual (a\<lparr>assets := Val ka\<rparr>) (Val kb) = assetsEqual a m"
proof -
  have "mset (map fst ka) = mset (map fst (orEmpty (assets a)))"
    and "mset (map fst kb) = mset (map fst (orEmpty m))"
    using assms by (metis mset_map)+
  then show ?thesis
    by (simp add: assetsEqual_mset Object_keys_def orEmpty_def)
qed

text \<open>
  C1. For albums \<open>a\<close> and \<open>b\<close> (whose asset objects hold each key once, as every JavaScript
  object does), \<open>a.equal(b)\<close> is the boolean that is true if and only if the uuids, the
  sanitized filenames and the parent uuids are equal and either one of the two is
  \<open>ARCHIVED\<close> or the album types are equal and the sets of asset keys are equal. Permuting
  the asset entries of either album leaves the result as it is.
\<close>

theorem equal_album_iff:
  assumes "wf_assets (assets a)" and "wf_assets (assets b)"
  shows "equal_album a (Val b) =
           Val (uuid a = uuid b
             \<and> getSanitizedFilename a = getSanitizedFilename b
             \<and> parentAlbumUUID a = parentAlbumUUID b
             \<and> (albumType a = ARCHIVED \<or> albumType b = ARCHIVED
                \<or> (albumType a = albumType b
                    \<and> set (Object_keys (orEmpty (assets a)))
                        = set (Object_keys (orEmpty (assets b))))))
         \<and> (\<forall>ka kb. mset ka = mset (orEmpty (assets a)) \<and> mset kb = mset (orEmpty (assets b))
               \<longrightarrow> equal_album (a\<lparr>assets := Val ka\<rparr>) (Val (b\<lparr>assets := Val kb\<rparr>))
                     = equal_album a (Val b))"
proof
  show "equal_album a (Val b) =
           Val (uuid a = uuid b
             \<and> getSanitizedFilename a = getSanitizedFilename b
             \<and> parentAlbumUUID a = parentAlbumUUID b
             \<and> (albumType a = ARCHIVED \<or> albumType b = ARCHIVED
                \<or> (albumType a = albumType b
                    \<and> set (Object_keys (orEmpty (assets a)))
                        = set (Object_keys (orEmpty (assets b))))))"
    using assetsEqual_set[OF assms] by (auto simp: equal_album_def)
next
  show "\<forall>ka kb. mset ka = mset (orEmpty (assets a)) \<and> mset kb = mset (orEmpty (assets b))
               \<longrightarrow> equal_album (a\<lparr>assets := Val ka\<rparr>) (Val (b\<lparr>assets := Val kb\<rparr>))
                     = equal_album a (Val b)"
  proof (intro allI impI)
    fix ka kb
    assume "mset ka = mset (orEmpty (assets a)) \<and> mset kb = mset (orEmpty (assets b))"
    then have "assetsEqual (a\<lparr>assets := Val ka\<rparr>) (Val kb) = assetsEqual a (assets b)"
      by (simp add: assetsEqual_permuted)
    then show "equal_album (a\<lparr>assets := Val ka\<rparr>) (Val (b\<lparr>assets := Val kb\<rparr>))
                 = equal_album a (Val b)"
      by (simp add: equal_album_def getSanitizedFilename_def)
  qed
qed

theorem equal_album_iff_witness:
  "wf_assets (assets tripXY) \<and> wf_assets (assets tripYX)
   \<and> equal_album tripXY (Val tripYX) = Val True
   \<and> equal_album (tripXY\<lparr>assets := Val [(''y.jpeg'', ''IMG_2.jpeg''), (''x.jpeg'', ''IMG_1.jpeg'')]\<rparr>)
        (Val (tripYX\<lparr>assets := Val [(''x.jpeg'', ''IMG_1.jpeg''), (''y.jpeg'', ''IMG_2.jpeg'')]\<rparr>))
       = Val True"
proof -
  have wa: "wf_assets (assets tripXY)" and wb: "wf_assets (assets tripYX)"
    by (simp_all add: wf_assets_def tripXY_def tripYX_def)
  note spec = equal_album_iff[OF wa wb]
  from spec have eq: "equal_album tripXY (Val tripYX) = Val True"
    by (simp add: tripXY_def tripYX_def Album_new_def getSanitizedFilename_def
        Object_keys_def orEmpty_def insert_commute)
  from spec have "equal_album (tripXY\<lparr>assets := Val [(''y.jpeg'', ''IMG_2.jpeg''), (''x.jpeg'', ''IMG_1.jpeg'')]\<rparr>)
        (Val (tripYX\<lparr>assets := Val [(''x.jpeg'', ''IMG_1.jpeg''), (''y.jpeg'', ''IMG_2.jpeg'')]\<rparr>))
       = equal_album tripXY (Val tripYX)"
    by (simp add: tripXY_def tripYX_def Album_new_def orEmpty_def)
  with eq wa wb show ?thesis by simp
qed

text \<open>
  C10. \<open>a.equal(x)\<close> with \<open>x\<close> null or undefined returns \<open>x\<close> itself, a falsy value, and
  the argument is not dereferenced. \<open>assetsEqual\<close> reads a null or undefined asset object
  on either side as the empty object, so an album without asset object and an empty asset
  object compare as equal.
\<close>

theorem equal_album_nullish:
  "equal_album a Null = Null \<and> equal_album a Undefined = Undefined
   \<and> \<not> ToBoolean (equal_album a Null) \<and> \<not> ToBoolean (equal_album a Undefined)
   \<and> assetsEqual (a\<lparr>assets := Undefined\<rparr>) m = assetsEqual (a\<lparr>assets := Val []\<rparr>) m
   \<and> assetsEqual (a\<lparr>assets := Null\<rparr>) m = assetsEqual (a\<lparr>assets := Val []\<rparr>) m
   \<and> assetsEqual a Undefined = assetsEqual a (Val [])
   \<and> assetsEqual a Null = assetsEqual a (Val [])
   \<and> assetsEqual (a\<lparr>assets := Undefined\<rparr>) (Val [])
   \<and> assetsEqual (a\<lparr>assets := Val []\<rparr>) Undefined"
  by (simp add: equal_album_def ToBoolean_def assetsEqual_def orEmpty_def)

subsection \<open>The parent found in the queue\<close>

lemma findParent_Some:
  "findParent x q = Some p \<Longrightarrow> p \<in> set q \<and> getUUID p = parentAlbumUUID x"
  unfolding findParent_def by (auto simp: find_Some_iff)

lemma findParent_None:
  "findParent x q = None \<longleftrightarrow> (\<forall>p \<in> set q. getUUID p \<noteq> parentAlbumUUID x)"
  unfolding findParent_def by (auto simp: find_None_iff)

lemma findParent_exists:
  assumes "p \<in> set q" and "getUUID p = parentAlbumUUID x"
  shows "\<exists>parent. findParent x q = Some parent"
  using assms findParent_None[of x q] by (cases "findParent x q") auto

subsection \<open>One unfolding of the recursion\<close>

lemma distanceToRoot_root:
  "parentAlbumUUID a = '''' \<Longrightarrow> distanceToRoot a q = Some (Inr 0)"
  by (subst distanceToRoot.simps) simp

lemma distanceToRoot_step:
  assumes "parentAlbumUUID a \<noteq> ''''" and "findParent a q = Some parent"
  shows "distanceToRoot a q = map_option plusOne (distanceToRoot parent q)"
  using assms by (subst distanceToRoot.simps) (cases "distanceToRoot parent q"; simp)

lemma distanceToRoot_gap:
  assumes "parentAlbumUUID a \<noteq> ''''" and "findParent a q = None"
  shows "distanceToRoot a q = Some (Inl NO_DISTANCE_TO_ROOT)"
  using assms by (subst distanceToRoot.simps) simp

lemma hasAncestor_root:
  "parentAlbumUUID a = '''' \<Longrightarrow> hasAncestor a p q = Some False"
  by (subst hasAncestor.simps) simp

lemma hasAncestor_parent:
  "parentAlbumUUID a \<noteq> '''' \<Longrightarrow> getUUID p = parentAlbumUUID a \<Longrightarrow> hasAncestor a p q = Some True"
  by (subst hasAncestor.simps) simp

lemma hasAncestor_step:
  assumes "parentAlbumUUID a \<noteq> ''''" and "getUUID p \<noteq> parentAlbumUUID a"
    and "findParent a q = Some parent"
  shows "hasAncestor a p q = hasAncestor parent p q"
  using assms by (subst hasAncestor.simps) simp

lemma hasAncestor_gap:
  assumes "parentAlbumUUID a \<noteq> ''''" and "getUUID p \<noteq> parentAlbumUUID a"
    and "findParent a q = None"
  shows "hasAncestor a p q = Some False"
  using assms by (subst hasAncestor.simps) simp

lemma hasAncestor_brokenAlong:
  "brokenAlong ns a p q \<Longrightarrow> hasAncestor a p q = Some False"
proof (induction ns arbitrary: a)
  case Nil
  then show ?case by (simp add: hasAncestor_gap)
next
  case (Cons n ns)
  then have "hasAncestor a p q = hasAncestor n p q"
    by (simp add: hasAncestor_step)
  with Cons show ?case by simp
qed

subsection \<open>A set of albums closed under parent links is never left\<close>

lemma distanceToRoot_closed_aux:
  assumes major: "distanceToRoot x q' = Some y"
    and closed: "\<And>x. x \<in> C \<Longrightarrow> parentAlbumUUID x \<noteq> '''' \<and> (\<exists>p \<in> C. findParent x q = Some p)"
  shows "\<not> (q' = q \<and> x \<in> C)"
proof (rule distanceToRoot.raw_induct[where P = "\<lambda>x q' y. \<not> (q' = q \<and> x \<in> C)", OF _ major],
    goal_cases)
  case (1 dtr album fullQueue r)
  show ?case
  proof
    assume h: "fullQueue = q \<and> album \<in> C"
    with closed obtain p
      where p: "parentAlbumUUID album \<noteq> ''''" "p \<in> C" "findParent album q = Some p"
      by blast
    with h 1(2) have "Option.bind (dtr p q) (\<lambda>r. Some (plusOne r)) = Some r"
      by simp
    then obtain r' where "dtr p q = Some r'"
      by (cases "dtr p q") simp_all
    from 1(1)[OF this] p show False by simp
  qed
qed

lemma distanceToRoot_closed:
  assumes "\<And>x. x \<in> C \<Longrightarrow> parentAlbumUUID x \<noteq> '''' \<and> (\<exists>p \<in> C. findParent x q = Some p)"
    and "a \<in> C"
  shows "distanceToRoot a q = None"
proof (cases "distanceToRoot a q")
  case (Some y)
  from distanceToRoot_closed_aux[OF Some, of C q] assms show ?thesis by blast
qed simp

lemma hasAncestor_closed_aux:
  assumes major: "hasAncestor x p' q' = Some y"
    and closed: "\<And>x. x \<in> C \<Longrightarrow> parentAlbumUUID x \<noteq> '''' \<and> getUUID p \<noteq> parentAlbumUUID x
            \<and> (\<exists>n \<in> C. findParent x q = Some n)"
  shows "\<not> (q' = q \<and> p' = p \<and> x \<in> C)"
proof (rule hasAncestor.raw_induct
    [where P = "\<lambda>x p' q' y. \<not> (q' = q \<and> p' = p \<and> x \<in> C)", OF _ major], goal_cases)
  case (1 ha this potentialAncestor fullQueue r)
  show ?case
  proof
    assume h: "fullQueue = q \<and> potentialAncestor = p \<and> this \<in> C"
    with closed obtain n
      where n: "parentAlbumUUID this \<noteq> ''''" "getUUID p \<noteq> parentAlbumUUID this"
        "n \<in> C" "findParent this q = Some n"
      by blast
    with h 1(2) have "ha n p q = Some r"
      by simp
    from 1(1)[OF this] n show False by simp
  qed
qed

lemma hasAncestor_closed:
  assumes "\<And>x. x \<in> C \<Longrightarrow> parentAlbumUUID x \<noteq> '''' \<and> getUUID p \<noteq> parentAlbumUUID x
            \<and> (\<exists>n \<in> C. findParent x q = Some n)"
    and "a \<in> C"
  shows "hasAncestor a p q = None"
proof (cases "hasAncestor a p q")
  case (Some y)
  from hasAncestor_closed_aux[OF Some, of C p q] assms show ?thesis by blast
qed simp

subsection \<open>Termination along a depth that decreases\<close>

lemma depthOrdered_step:
  assumes "depthOrdered d a q" and "x = a \<or> x \<in> set q"
    and "parentAlbumUUID x \<noteq> ''''" and "findParent x q = Some p"
  shows "d p < d x"
  using assms by (auto simp: depthOrdered_def list_all_iff)

lemma distanceToRoot_ranked:
  assumes ord: "depthOrdered d a q"
  shows "x = a \<or> x \<in> set q \<Longrightarrow>
    \<exists>r. distanceToRoot x q = Some r \<and> (\<forall>n. r = Inr n \<longrightarrow> n \<le> d x)"
proof (induction "d x" arbitrary: x rule: less_induct)
  case less
  show ?case
  proof (cases "parentAlbumUUID x = ''''")
    case True
    then show ?thesis by (simp add: distanceToRoot_root)
  next
    case ne: False
    show ?thesis
    proof (cases "findParent x q")
      case None
      with ne show ?thesis by (simp add: distanceToRoot_gap)
    next
      case (Some p)
      from depthOrdered_step[OF ord less.prems ne Some] have lt: "d p < d x" .
      from Some have "p \<in> set q" by (simp add: findParent_Some)
      with less.hyps[OF lt] obtain r
        where r: "distanceToRoot p q = Some r" "\<forall>n. r = Inr n \<longrightarrow> n \<le> d p"
        by blast
      have "distanceToRoot x q = Some (plusOne r)"
        using ne Some r(1) by (simp add: distanceToRoot_step)
      moreover have "\<forall>n. plusOne r = Inr n \<longrightarrow> n \<le> d x"
        using r(2) lt by (cases r) (auto simp: plusOne_def)
      ultimately show ?thesis by blast
    qed
  qed
qed

lemma hasAncestor_ranked:
  assumes ord: "depthOrdered d a q"
  shows "x = a \<or> x \<in> set q \<Longrightarrow> \<exists>b. hasAncestor x p q = Some b"
proof (induction "d x" arbitrary: x rule: less_induct)
  case less
  show ?case
  proof (cases "parentAlbumUUID x = ''''")
    case True
    then have "hasAncestor x p q = Some False" by (rule hasAncestor_root)
    then show ?thesis by blast
  next
    case ne: False
    show ?thesis
    proof (cases "getUUID p = parentAlbumUUID x")
      case True
      with ne have "hasAncestor x p q = Some True" by (simp add: hasAncestor_parent)
      then show ?thesis by blast
    next
      case np: False
      show ?thesis
      proof (cases "findParent x q")
        case None
        with ne np have "hasAncestor x p q = Some False" by (simp add: hasAncestor_gap)
        then show ?thesis by blast
      next
        case (Some n)
        from depthOrdered_step[OF ord less.prems ne Some] have lt: "d n < d x" .
        from Some have "n \<in> set q" by (simp add: findParent_Some)
        with less.hyps[OF lt] obtain b where "hasAncestor n p q = Some b"
          by blast
        with ne np Some show ?thesis by (simp add: hasAncestor_step)
      qed
    qed
  qed
qed

text \<open>
  C2, as stated, fails where its first two cases overlap. The album \<open>holidays\<close> lies at the
  root (empty parent UUID) and the queue holds the root album, whose UUID is the empty
  string: an album of the queue has the parent UUID of \<open>holidays\<close>, yet the distance of
  \<open>holidays\<close> is 0 and not the distance of that album plus one.
\<close>

theorem distanceToRoot_root_parent_counterexample:
  "getRootAlbum \<in> set [getRootAlbum]
   \<and> getUUID getRootAlbum = parentAlbumUUID holidays
   \<and> findParent holidays [getRootAlbum] = Some getRootAlbum
   \<and> distanceToRoot holidays [getRootAlbum] = Some (Inr 0)
   \<and> distanceToRoot getRootAlbum [getRootAlbum] = Some (Inr 0)
   \<and> distanceToRoot holidays [getRootAlbum]
       \<noteq> map_option plusOne (distanceToRoot getRootAlbum [getRootAlbum])"
proof -
  have "distanceToRoot holidays [getRootAlbum] = Some (Inr 0)"
    by (rule distanceToRoot_root) (simp add: holidays_def Album_new_def)
  moreover have "distanceToRoot getRootAlbum [getRootAlbum] = Some (Inr 0)"
    by (rule distanceToRoot_root) (simp add: getRootAlbum_def Album_new_def)
  moreover have "findParent holidays [getRootAlbum] = Some getRootAlbum"
    by (simp add: findParent_def getUUID_def holidays_def getRootAlbum_def Album_new_def)
  moreover have "getUUID getRootAlbum = parentAlbumUUID holidays"
    by (simp add: getUUID_def holidays_def getRootAlbum_def Album_new_def)
  ultimately show ?thesis by (simp add: plusOne_def)
qed

text \<open>
  C2 (amended). If the parent UUID of \<open>a\<close> is empty, \<open>distanceToRoot\<close> returns 0. If it is
  not empty and an album of \<open>q\<close> has it, then \<open>distanceToRoot(a, q)\<close> is
  \<open>distanceToRoot(parent, q) + 1\<close> for the first such album \<open>parent\<close> of \<open>q\<close>: the same
  number plus one, the same error, or no result when the call on the parent has none. If
  it is not empty and no album of \<open>q\<close> has it, \<open>distanceToRoot\<close> throws
  \<open>NO_DISTANCE_TO_ROOT\<close>.
\<close>

theorem distanceToRoot_cases:
  "(parentAlbumUUID a = '''' \<longrightarrow> distanceToRoot a q = Some (Inr 0))
   \<and> (parentAlbumUUID a \<noteq> '''' \<and> (\<exists>p \<in> set q. getUUID p = parentAlbumUUID a) \<longrightarrow>
        (\<exists>parent. findParent a q = Some parent \<and> parent \<in> set q
           \<and> getUUID parent = parentAlbumUUID a
           \<and> distanceToRoot a q = map_option plusOne (distanceToRoot parent q)))
   \<and> (parentAlbumUUID a \<noteq> '''' \<and> (\<forall>p \<in> set q. getUUID p \<noteq> parentAlbumUUID a) \<longrightarrow>
        distanceToRoot a q = Some (Inl NO_DISTANCE_TO_ROOT))"
proof (intro conjI impI)
  assume "parentAlbumUUID a = ''''"
  then show "distanceToRoot a q = Some (Inr 0)" by (rule distanceToRoot_root)
next
  assume h: "parentAlbumUUID a \<noteq> '''' \<and> (\<exists>p \<in> set q. getUUID p = parentAlbumUUID a)"
  then obtain parent where p: "findParent a q = Some parent"
    using findParent_exists by blast
  with h have "distanceToRoot a q = map_option plusOne (distanceToRoot parent q)"
    by (simp add: distanceToRoot_step)
  with p findParent_Some[OF p]
  show "\<exists>parent. findParent a q = Some parent \<and> parent \<in> set q
           \<and> getUUID parent = parentAlbumUUID a
           \<and> distanceToRoot a q = map_option plusOne (distanceToRoot parent q)"
    by blast
next
  assume "parentAlbumUUID a \<noteq> '''' \<and> (\<forall>p \<in> set q. getUUID p \<noteq> parentAlbumUUID a)"
  then show "distanceToRoot a q = Some (Inl NO_DISTANCE_TO_ROOT)"
    by (simp add: distanceToRoot_gap findParent_None)
qed

theorem distanceToRoot_cases_witness:
  "distanceToRoot holidays [holidays, beach] = Some (Inr 0)
   \<and> distanceToRoot beach [holidays, beach] = Some (Inr 1)
   \<and> distanceToRoot orphan [holidays, beach] = Some (Inl NO_DISTANCE_TO_ROOT)"
proof -
  have fp: "findParent beach [holidays, beach] = Some holidays"
    by (simp add: findParent_def getUUID_def holidays_def beach_def Album_new_def)
  have "distanceToRoot holidays [holidays, beach] = Some (Inr 0)"
    using distanceToRoot_cases[of holidays "[holidays, beach]"]
    by (simp add: holidays_def Album_new_def)
  moreover from this have "distanceToRoot beach [holidays, beach] = Some (Inr 1)"
    using distanceToRoot_cases[of beach "[holidays, beach]"] fp
    by (simp add: getUUID_def holidays_def beach_def Album_new_def plusOne_def)
  moreover have "distanceToRoot orphan [holidays, beach] = Some (Inl NO_DISTANCE_TO_ROOT)"
    using distanceToRoot_cases[of orphan "[holidays, beach]"]
    by (simp add: getUUID_def holidays_def beach_def orphan_def Album_new_def)
  ultimately show ?thesis by simp
qed

text \<open>
  C3, as stated, fails: nothing guards the recursion against a cycle. In the queue of
  \<open>loopA\<close> and \<open>loopB\<close> each album is the parent of the other, and neither
  \<open>distanceToRoot\<close> nor \<open>hasAncestor\<close> returns.
\<close>

theorem ancestry_cycle_counterexample:
  "findParent loopA [loopA, loopB] = Some loopB
   \<and> findParent loopB [loopA, loopB] = Some loopA
   \<and> distanceToRoot loopA [loopA, loopB] = None
   \<and> hasAncestor loopA holidays [loopA, loopB] = None"
proof -
  have "distanceToRoot loopA [loopA, loopB] = None"
    by (rule distanceToRoot_closed[of "{loopA, loopB}"])
      (auto simp: loopA_def loopB_def Album_new_def findParent_def getUUID_def)
  moreover have "hasAncestor loopA holidays [loopA, loopB] = None"
    by (rule hasAncestor_closed[of "{loopA, loopB}"])
      (auto simp: loopA_def loopB_def holidays_def Album_new_def findParent_def getUUID_def)
  ultimately show ?thesis
    by (simp add: loopA_def loopB_def Album_new_def findParent_def getUUID_def)
qed

text \<open>
  C3 (amended). For every album list whose parent links are acyclic, in that some depth
  decreases from each album to the parent found for it, \<open>distanceToRoot\<close> and
  \<open>hasAncestor\<close> return, and the recursion is bounded by that depth: a distance returned
  is at most the depth of the album.
\<close>

theorem ancestry_terminates_acyclic:
  assumes "depthOrdered d a q"
  shows "(\<exists>r. distanceToRoot a q = Some r \<and> (\<forall>n. r = Inr n \<longrightarrow> n \<le> d a))
         \<and> (\<exists>b. hasAncestor a p q = Some b)"
  using distanceToRoot_ranked[OF assms, of a] hasAncestor_ranked[OF assms, of a p] by simp

theorem ancestry_terminates_acyclic_witness:
  "depthOrdered (\<lambda>x. if parentAlbumUUID x = '''' then 0 else 1) beach [holidays, beach]
   \<and> (\<exists>r. distanceToRoot beach [holidays, beach] = Some r \<and> (\<forall>n. r = Inr n \<longrightarrow> n \<le> 1))
   \<and> (\<exists>b. hasAncestor beach orphan [holidays, beach] = Some b)"
proof -
  have h: "depthOrdered (\<lambda>x. if parentAlbumUUID x = '''' then 0 else 1) beach [holidays, beach]"
    by (simp add: depthOrdered_def findParent_def getUUID_def holidays_def beach_def Album_new_def)
  from ancestry_terminates_acyclic[OF h, of orphan] h show ?thesis
    by (simp add: beach_def Album_new_def)
qed

text \<open>
  C4, as stated, fails where its first two cases overlap. The root album has the empty
  string as UUID, which is the parent UUID of the album \<open>holidays\<close> at the root, and
  \<open>hasAncestor\<close> returns false: the test for an empty parent UUID comes first.
\<close>

theorem hasAncestor_root_counterexample:
  "getUUID getRootAlbum = parentAlbumUUID holidays
   \<and> hasAncestor holidays getRootAlbum [getRootAlbum, holidays] = Some False"
proof -
  have "hasAncestor holidays getRootAlbum [getRootAlbum, holidays] = Some False"
    by (rule hasAncestor_root) (simp add: holidays_def Album_new_def)
  then show ?thesis
    by (simp add: getUUID_def holidays_def getRootAlbum_def Album_new_def)
qed

text \<open>
  C4 (amended). \<open>a.hasAncestor(p, q)\<close> returns false when the parent UUID of \<open>a\<close> is empty,
  returns true when that UUID is not empty and is the UUID of \<open>p\<close>, and returns false
  whenever the parent chain from \<open>a\<close> reaches a UUID that no album of \<open>q\<close> has before it
  meets \<open>p\<close>: a broken link is never reported as ancestry.
\<close>

theorem hasAncestor_cases:
  "(parentAlbumUUID a = '''' \<longrightarrow> hasAncestor a p q = Some False)
   \<and> (parentAlbumUUID a \<noteq> '''' \<and> getUUID p = parentAlbumUUID a \<longrightarrow> hasAncestor a p q = Some True)
   \<and> (brokenAlong ns a p q \<longrightarrow> hasAncestor a p q = Some False)"
  by (simp add: hasAncestor_root hasAncestor_parent hasAncestor_brokenAlong)

theorem hasAncestor_cases_witness:
  "hasAncestor holidays beach [holidays, beach] = Some False
   \<and> hasAncestor beach holidays [holidays, beach] = Some True
   \<and> brokenAlong [] orphan holidays [holidays, beach]
   \<and> hasAncestor orphan holidays [holidays, beach] = Some False
   \<and> brokenAlong [orphan] (Album_new ''a4'' ALBUM ''Deep'' ''a2'') holidays [holidays, orphan]
   \<and> hasAncestor (Album_new ''a4'' ALBUM ''Deep'' ''a2'') holidays [holidays, orphan] = Some False"
proof -
  have 1: "hasAncestor holidays beach [holidays, beach] = Some False"
    using hasAncestor_cases[of holidays beach "[holidays, beach]"]
    by (simp add: holidays_def Album_new_def)
  have 2: "hasAncestor beach holidays [holidays, beach] = Some True"
    using hasAncestor_cases[of beach holidays "[holidays, beach]"]
    by (simp add: getUUID_def holidays_def beach_def Album_new_def)
  have b3: "brokenAlong [] orphan holidays [holidays, beach]"
    by (simp add: findParent_def getUUID_def holidays_def beach_def orphan_def Album_new_def)
  have 3: "hasAncestor orphan holidays [holidays, beach] = Some False"
    using hasAncestor_cases[of orphan holidays "[holidays, beach]" "[]"] b3 by simp
  have b4: "brokenAlong [orphan] (Album_new ''a4'' ALBUM ''Deep'' ''a2'') holidays [holidays, orphan]"
    by (simp add: findParent_def getUUID_def holidays_def orphan_def Album_new_def)
  have 4: "hasAncestor (Album_new ''a4'' ALBUM ''Deep'' ''a2'') holidays [holidays, orphan] = Some False"
    using hasAncestor_cases[of "Album_new ''a4'' ALBUM ''Deep'' ''a2''" holidays "[holidays, orphan]" "[orphan]"] b4
    by simp
  from 1 2 b3 3 b4 4 show ?thesis by simp
qed

subsection \<open>The page size\<close>

text \<open>
  C8. The page-size constant \<open>MAX_RECORDS_LIMIT\<close> is 198, which is below 200 and divisible
  by 2 and by 3, so that three thirds and two halves of a page make up the page with
  nothing left over; and one call requests no more than one page size worth of records.
\<close>

theorem MAX_RECORDS_LIMIT_divides:
  "MAX_RECORDS_LIMIT = 198
   \<and> MAX_RECORDS_LIMIT < 200
   \<and> 2 dvd MAX_RECORDS_LIMIT \<and> 3 dvd MAX_RECORDS_LIMIT
   \<and> 3 * (MAX_RECORDS_LIMIT div 3) = MAX_RECORDS_LIMIT
   \<and> 2 * (MAX_RECORDS_LIMIT div 2) = MAX_RECORDS_LIMIT
   \<and> resultsLimit \<le> MAX_RECORDS_LIMIT"
  by (simp add: MAX_RECORDS_LIMIT_def resultsLimit_def)

subsection \<open>The session\<close>

lemma getTokens_failure:
  "getTokens NetworkError s = failWith TokenAcquisitionFailed s"
  "status \<noteq> 200 \<Longrightarrow> getTokens (Response status header) s = failWith TokenAcquisitionFailed s"
  by (simp_all add: getTokens_def split: option.split)

lemma failWith_frame:
  "trustTokenFile (failWith e s) = trustTokenFile s"
  "trustToken (failWith e s) = trustToken s"
  "cookies (failWith e s) = cookies s"
  "photos (failWith e s) = photos s"
  "photosServiceUrl (failWith e s) = photosServiceUrl s"
  "state (failWith e s) = FAILED"
  "ready (failWith e s) = reject e (ready s)"
  by (simp_all add: failWith_def)

text \<open>
  C5. The trust-token file is overwritten only after a successful response of the token
  request: when \<open>getTokens\<close> ends in a network error or in a status other than 200, the
  file holds afterwards what it held before and the session fails, its pending readiness
  rejected with \<open>TokenAcquisitionFailed\<close>; on success the file holds exactly the trust
  token of the response.
\<close>

theorem getTokens_trust_token_file:
  "getTokens NetworkError s = failWith TokenAcquisitionFailed s
   \<and> trustTokenFile (getTokens NetworkError s) = trustTokenFile s
   \<and> state (getTokens NetworkError s) = FAILED
   \<and> (ready s = Pending \<longrightarrow>
        ready (getTokens NetworkError s) = Rejected TokenAcquisitionFailed)
   \<and> (status \<noteq> 200 \<longrightarrow>
        getTokens (Response status header) s = failWith TokenAcquisitionFailed s
        \<and> trustTokenFile (getTokens (Response status header) s) = trustTokenFile s
        \<and> state (getTokens (Response status header) s) = FAILED)
   \<and> (status \<noteq> 200 \<and> ready s = Pending \<longrightarrow>
        ready (getTokens (Response status header) s) = Rejected TokenAcquisitionFailed)
   \<and> trustTokenFile (getTokens (Response 200 (Some token)) s) = token
   \<and> state (getTokens (Response 200 (Some token)) s) = TRUSTED
   \<and> ready (getTokens (Response 200 (Some token)) s) = ready s"
  by (simp add: getTokens_failure failWith_frame reject_def) (simp add: getTokens_def)

theorem getTokens_trust_token_file_witness:
  "ready testSession = Pending
   \<and> ready (getTokens NetworkError testSession) = Rejected TokenAcquisitionFailed
   \<and> trustTokenFile (getTokens NetworkError testSession) = ''trust-token''
   \<and> ready (getTokens (Response 500 None) testSession) = Rejected TokenAcquisitionFailed
   \<and> trustTokenFile (getTokens (Response 500 None) testSession) = ''trust-token''
   \<and> trustTokenFile (getTokens (Response 200 (Some ''trust-token-modified'')) testSession)
       = ''trust-token-modified''"
proof -
  have s: "ready testSession = Pending" "trustTokenFile testSession = ''trust-token''"
    by (simp_all add: testSession_def)
  have ne: "(500 :: nat) \<noteq> 200" by simp
  from getTokens_trust_token_file[of testSession 500 None "''trust-token-modified''"] s ne
  show ?thesis by metis
qed

lemma all_expired_filter:
  "(\<forall>c \<in> set cs. expired now c) \<Longrightarrow> filter (\<lambda>c. \<not> expired now c) cs = []"
  by (induction cs) simp_all

text \<open>
  C6. When every cookie of the response of \<open>setupAccount\<close> has expired, which includes the
  response without any cookie, the outcome is the one for the same response with no
  cookie at all: the session fails, its pending readiness is rejected with
  \<open>AccountSetupFailed\<close>, no photo-library component is constructed and no cookie is stored.
\<close>

theorem setupAccount_expired_cookies:
  assumes "\<forall>c \<in> set (setCookie r). expired now c"
  shows "setupAccount now (Response status r) s
           = setupAccount now (Response status (r\<lparr>setCookie := []\<rparr>)) s
         \<and> setupAccount now (Response status r) s = failWith AccountSetupFailed s
         \<and> state (setupAccount now (Response status r) s) = FAILED
         \<and> (ready s = Pending \<longrightarrow>
              ready (setupAccount now (Response status r) s) = Rejected AccountSetupFailed)
         \<and> photos (setupAccount now (Response status r) s) = photos s
         \<and> cookies (setupAccount now (Response status r) s) = cookies s"
proof -
  have "setupAccount now (Response status r) s = failWith AccountSetupFailed s"
    using all_expired_filter[OF assms] by (simp add: setupAccount_def split: option.split)
  moreover have "setupAccount now (Response status (r\<lparr>setCookie := []\<rparr>)) s
      = failWith AccountSetupFailed s"
    by (simp add: setupAccount_def split: option.split)
  ultimately show ?thesis by (simp add: failWith_frame reject_def)
qed

theorem setupAccount_expired_cookies_witness:
  "list_all (expired 1700000000) expiredCookies
   \<and> ready testSession = Pending
   \<and> ready (setupAccount 1700000000
        (Response 200 \<lparr>setCookie = expiredCookies,
           ckdatabasewsUrl = Some ''https://p00-ckdatabasews.icloud.com:443''\<rparr>) testSession)
       = Rejected AccountSetupFailed
   \<and> photos (setupAccount 1700000000
        (Response 200 \<lparr>setCookie = expiredCookies,
           ckdatabasewsUrl = Some ''https://p00-ckdatabasews.icloud.com:443''\<rparr>) testSession)
       = None"
proof -
  have h: "\<forall>c \<in> set (setCookie \<lparr>setCookie = expiredCookies,
           ckdatabasewsUrl = Some ''https://p00-ckdatabasews.icloud.com:443''\<rparr>). expired 1700000000 c"
    by (simp add: expiredCookies_def expired_def)
  have s: "ready testSession = Pending" "photos testSession = None"
    by (simp_all add: testSession_def)
  from setupAccount_expired_cookies[OF h, of 200 testSession] s
  have "ready (setupAccount 1700000000
        (Response 200 \<lparr>setCookie = expiredCookies,
           ckdatabasewsUrl = Some ''https://p00-ckdatabasews.icloud.com:443''\<rparr>) testSession)
       = Rejected AccountSetupFailed"
    and "photos (setupAccount 1700000000
        (Response 200 \<lparr>setCookie = expiredCookies,
           ckdatabasewsUrl = Some ''https://p00-ckdatabasews.icloud.com:443''\<rparr>) testSession)
       = None"
    by metis+
  moreover have "list_all (expired 1700000000) expiredCookies"
    by (simp add: expiredCookies_def expired_def)
  ultimately show ?thesis using s by simp
qed

end
